theory Spec2Isabelle
  imports
    Main
    "HOL-Library.Char_ord"
    "HOL-Library.List_Lexorder"
    "HOL-Library.Multiset"
begin

section \<open>Golden-fixture metadata comparison\<close>

text \<open>
  The function \<^verbatim>\<open>are_equal_metadata\<close> of
  \<^verbatim>\<open>augly/tests/text_tests/transforms_unit_test.py\<close> compares two lists of
  metadata records (Python dicts with string keys).

  A Python string is a \<open>string\<close>; \<open>length\<close> stands for \<^verbatim>\<open>len\<close>, one
  \<open>char\<close> per code point. A metadata value is a string, a float NaN, or some other
  JSON value. \<open>NaN i\<close> is the NaN object of identity \<open>i\<close>: Python's
  \<^verbatim>\<open>==\<close> is \<open>False\<close> on a NaN, also against itself, while the equality of
  lists and dicts takes an identical object as equal before it asks \<^verbatim>\<open>==\<close>.
  Equality of \<open>pyval\<close> is that comparison of containers ("identical or equal"), and
  \<open>py_eq\<close> is \<^verbatim>\<open>==\<close> itself. A string never equals a non-string, and on the
  remaining values \<^verbatim>\<open>==\<close> is taken to be equality of the parameter type \<open>'a\<close>.
\<close>

datatype 'a pyval = Str string | NaN nat | Other 'a

fun py_eq :: "'a pyval \<Rightarrow> 'a pyval \<Rightarrow> bool" where
  "py_eq (NaN i) w = False"
| "py_eq v w = (v = w)"

text \<open>A dict is the list of its items in insertion order; a real dict has distinct keys.\<close>

type_synonym 'a pydict = "(string \<times> 'a pyval) list"

definition wf_dict :: "'a pydict \<Rightarrow> bool" where
  "wf_dict d = distinct (map fst d)"

text \<open>No value of the record is a NaN: \<^verbatim>\<open>==\<close> holds between each value and itself.\<close>

definition nan_free :: "'a pydict \<Rightarrow> bool" where
  "nan_free d = list_all (\<lambda>kv. py_eq (snd kv) (snd kv)) d"

text \<open>
  Python's dict equality: as many items on both sides, and every key of the left
  one is a key of the right one with a value that is identical or equal.
\<close>

definition dict_eq :: "'a pydict \<Rightarrow> 'a pydict \<Rightarrow> bool" where
  "dict_eq d1 d2 =
     (length d1 = length d2 \<and> list_all (\<lambda>kv. map_of d2 (fst kv) = Some (snd kv)) d1)"

text \<open>Python's list equality \<^verbatim>\<open>actual_meta == expected_meta\<close>.\<close>

definition meta_eq :: "'a pydict list \<Rightarrow> 'a pydict list \<Rightarrow> bool" where
  "meta_eq actual_meta expected_meta = list_all2 dict_eq actual_meta expected_meta"

subsection \<open>The path functions of the standard library (POSIX)\<close>

text \<open>
  \<^verbatim>\<open>os.path.sep\<close> is \<^verbatim>\<open>"/"\<close>; \<^verbatim>\<open>str.split(sep)\<close> and
  \<^verbatim>\<open>sep.join(comps)\<close> for that one-character separator.
\<close>

definition os_path_sep :: char where
  "os_path_sep = CHR ''/''"

fun split_sep :: "char \<Rightarrow> string \<Rightarrow> string list" where
  "split_sep c [] = [[]]"
| "split_sep c (x # xs) =
     (if x = c then [] # split_sep c xs
      else (case split_sep c xs of
              [] \<Rightarrow> [[x]]
            | w # ws \<Rightarrow> (x # w) # ws))"

fun join_sep :: "char \<Rightarrow> string list \<Rightarrow> string" where
  "join_sep c [] = []"
| "join_sep c [w] = w"
| "join_sep c (w # ws) = w @ c # join_sep c ws"

text \<open>
  \<^verbatim>\<open>posixpath.normpath\<close>. One or two leading slashes are kept, three or more
  count as one.
\<close>

definition initial_slashes :: "string \<Rightarrow> nat" where
  "initial_slashes path =
     (if take 1 path = ''/'' then
        (if take 2 path = ''//'' \<and> take 3 path \<noteq> ''///'' then 2 else 1)
      else 0)"

text \<open>The loop over \<^verbatim>\<open>comps\<close>, with \<^verbatim>\<open>new_comps\<close> as accumulator.\<close>

fun norm_comps :: "nat \<Rightarrow> string list \<Rightarrow> string list \<Rightarrow> string list" where
  "norm_comps i [] new_comps = new_comps"
| "norm_comps i (cmp # comps) new_comps =
     (if cmp = [] \<or> cmp = ''.'' then norm_comps i comps new_comps
      else if cmp \<noteq> ''..'' \<or> (i = 0 \<and> new_comps = [])
              \<or> (new_comps \<noteq> [] \<and> last new_comps = ''..'')
           then norm_comps i comps (new_comps @ [cmp])
      else if new_comps \<noteq> [] then norm_comps i comps (butlast new_comps)
      else norm_comps i comps new_comps)"

definition normpath :: "string \<Rightarrow> string" where
  "normpath path =
     (if path = [] then ''.''
      else
        let i = initial_slashes path;
            p = join_sep os_path_sep (norm_comps i (split_sep os_path_sep path) []);
            p' = (if i \<noteq> 0 then replicate i os_path_sep @ p else p)
        in if p' = [] then ''.'' else p')"

subsection \<open>The comparison\<close>

text \<open>
  The slice \<^verbatim>\<open>act_v[-len(exp_v):]\<close>: the last \<open>n\<close> characters, all of the
  string when it has fewer, and all of it as well when \<open>n = 0\<close>, since
  \<^verbatim>\<open>s[-0:]\<close> is \<^verbatim>\<open>s[0:]\<close>.
\<close>

definition tail_slice :: "string \<Rightarrow> nat \<Rightarrow> string" where
  "tail_slice s n = (if n = 0 then s else drop (length s - n) s)"

text \<open>The condition under \<^verbatim>\<open>not (...)\<close> at lines 41 to 46.\<close>

fun path_suffix_match :: "'a pyval \<Rightarrow> 'a pyval \<Rightarrow> bool" where
  "path_suffix_match (Str act_v) (Str exp_v) =
     (split_sep os_path_sep (normpath (tail_slice act_v (length exp_v)))
        = split_sep os_path_sep (normpath exp_v))"
| "path_suffix_match _ _ = False"

text \<open>
  The inner loop over the zipped sorted items: \<open>False\<close> is the early
  \<^verbatim>\<open>return False\<close>, \<open>True\<close> is falling out of the loop.
\<close>

fun items_loop :: "((string \<times> 'a pyval) \<times> (string \<times> 'a pyval)) list \<Rightarrow> bool" where
  "items_loop [] = True"
| "items_loop (((act_k, act_v), (exp_k, exp_v)) # rest) =
     (if act_k \<noteq> exp_k then False
      else if py_eq act_v exp_v then items_loop rest
      else if \<not> path_suffix_match act_v exp_v then False
      else items_loop rest)"

definition sorted_items :: "'a pydict \<Rightarrow> (string \<times> 'a pyval) list" where
  "sorted_items d = sort_key fst d"

fun dicts_loop :: "('a pydict \<times> 'a pydict) list \<Rightarrow> bool" where
  "dicts_loop [] = True"
| "dicts_loop ((actual_dict, expected_dict) # rest) =
     (if items_loop (zip (sorted_items actual_dict) (sorted_items expected_dict))
      then dicts_loop rest
      else False)"

definition are_equal_metadata :: "'a pydict list \<Rightarrow> 'a pydict list \<Rightarrow> bool" where
  "are_equal_metadata actual_meta expected_meta =
     (if meta_eq actual_meta expected_meta then True
      else dicts_loop (zip actual_meta expected_meta))"

text \<open>
  The two operands cut to the shorter length: both lists to the length of the shorter list,
  and the sorted items of each pair of records to the number of items of the smaller record.
\<close>

definition cut_actual :: "'a pydict list \<Rightarrow> 'a pydict list \<Rightarrow> 'a pydict list" where
  "cut_actual actual_meta expected_meta =
     map (\<lambda>(a, e). take (min (length a) (length e)) (sorted_items a))
       (zip actual_meta expected_meta)"

definition cut_expected :: "'a pydict list \<Rightarrow> 'a pydict list \<Rightarrow> 'a pydict list" where
  "cut_expected actual_meta expected_meta =
     map (\<lambda>(a, e). take (min (length a) (length e)) (sorted_items e))
       (zip actual_meta expected_meta)"


section \<open>Insertion of punctuation characters\<close>

text \<open>
  The fixture of \<^verbatim>\<open>setUpClass\<close> and the value that
  \<^verbatim>\<open>test_InsertPunctuationChars\<close> asserts for
  \<^verbatim>\<open>InsertPunctuationChars("all", 1.0, False)(self.texts)\<close>, both copied from
  \<^verbatim>\<open>transforms_unit_test.py\<close>.
\<close>

definition texts :: "string list" where
  "texts = [''The quick brown 'fox' couldn't jump over the green, grassy hill.'']"

definition expected_insert_punctuation_chars :: "string list" where
  "expected_insert_punctuation_chars =
     [''T?h?e? ?q?u?i?c?k? ?b?r?o?w?n? ?'?f?o?x?'? ?c?o?u?l?d?n?'?t? '' @
      ''?j?u?m?p? ?o?v?e?r? ?t?h?e? ?g?r?e?e?n?,? ?g?r?a?s?s?y? ?h?i?l?l?.'']"

text \<open>
  Modelled from the spec: the body of \<^verbatim>\<open>InsertPunctuationChars\<close>
  (\<^verbatim>\<open>augly/text/transforms.py\<close> and the augmenter it calls) is not among the
  sources. With granularity \<^verbatim>\<open>"all"\<close> and every position affected, the spec has it
  insert "a separator between every character"; the test's comment says the same
  ("Separator inserted between every character (including spaces/punctuation)").
  The separator \<open>sep\<close> is the punctuation drawn by the transform.
\<close>

fun insert_punctuation_chars :: "string \<Rightarrow> string \<Rightarrow> string" where
  "insert_punctuation_chars sep [] = []"
| "insert_punctuation_chars sep [c] = [c]"
| "insert_punctuation_chars sep (c # cs) = c # sep @ insert_punctuation_chars sep cs"

text \<open>
  The output as claim C4 words it: the separator after every character, the final one
  included.
\<close>

definition sep_after_every_char :: "string \<Rightarrow> string \<Rightarrow> string" where
  "sep_after_every_char sep s = concat (map (\<lambda>c. c # sep) s)"

section \<open>Properties of the metadata comparison\<close>

lemma items_loop_iff:
  "items_loop ps \<longleftrightarrow>
     (\<forall>p \<in> set ps. fst (fst p) = fst (snd p) \<and>
        (py_eq (snd (fst p)) (snd (snd p)) \<or> path_suffix_match (snd (fst p)) (snd (snd p))))"
  by (induction ps rule: items_loop.induct) auto

lemma dicts_loop_iff:
  "dicts_loop ps \<longleftrightarrow>
     (\<forall>p \<in> set ps. items_loop (zip (sorted_items (fst p)) (sorted_items (snd p))))"
  by (induction ps rule: dicts_loop.induct) auto

lemma path_suffix_match_iff:
  "path_suffix_match av ev \<longleftrightarrow>
     (\<exists>a e. av = Str a \<and> ev = Str e \<and>
        split_sep os_path_sep (normpath (tail_slice a (length e)))
          = split_sep os_path_sep (normpath e))"
  by (cases av; cases ev) auto

lemma items_loop_refl: "nan_free xs \<Longrightarrow> items_loop (zip xs xs)"
  by (induction xs) (auto simp: nan_free_def)

lemma length_sorted_items: "length (sorted_items d) = length d"
  by (simp add: sorted_items_def)

lemma nan_free_sorted_items: "nan_free (sorted_items d) = nan_free d"
  by (simp add: nan_free_def sorted_items_def list_all_iff)

lemma wf_dict_sorted_items: "wf_dict (sorted_items d) = wf_dict d"
  by (simp add: wf_dict_def sorted_items_def distinct_map)

lemma nan_free_take: "nan_free d \<Longrightarrow> nan_free (take m d)"
  by (auto simp: nan_free_def list_all_iff dest: in_set_takeD)

lemma wf_dict_take: "wf_dict d \<Longrightarrow> wf_dict (take m d)"
  by (simp add: wf_dict_def take_map [symmetric])

lemma sorted_items_take: "sorted_items (take m (sorted_items d)) = take m (sorted_items d)"
proof -
  have "sorted (take m (map fst (sort_key fst d)))"
    by (rule sorted_wrt_take) simp
  then have "sorted (map fst (take m (sort_key fst d)))"
    by (simp add: take_map)
  then show ?thesis
    by (simp add: sorted_items_def sort_key_id_if_sorted)
qed

lemma dict_eq_sorted_items:
  assumes "wf_dict d1" "wf_dict d2" "dict_eq d1 d2"
  shows "sorted_items d1 = sorted_items d2"
proof -
  have d1: "distinct d1" and d2: "distinct d2"
    using assms(1,2) by (auto simp: wf_dict_def distinct_map)
  have sub: "set d1 \<subseteq> set d2"
  proof
    fix kv assume "kv \<in> set d1"
    with assms(3) have "map_of d2 (fst kv) = Some (snd kv)"
      by (simp add: dict_eq_def list_all_iff)
    then show "kv \<in> set d2"
      using map_of_SomeD[of d2 "fst kv" "snd kv"] by simp
  qed
  have "card (set d2) = card (set d1)"
    using assms(3) d1 d2 by (simp add: dict_eq_def distinct_card)
  with sub have "set d1 = set d2"
    by (simp add: card_subset_eq)
  then have "mset d1 = mset d2"
    using d1 d2 by (simp add: set_eq_iff_mset_eq_distinct)
  moreover have "inj_on fst (set d1)"
    using assms(1) by (simp add: wf_dict_def distinct_map)
  ultimately have "sort_key fst d1 = sort_key fst d2"
    using sort_key_inj_key_eq[of d1 "sort_key fst d2" fst] by simp
  then show ?thesis
    by (simp add: sorted_items_def)
qed

lemma meta_eq_dicts_loop:
  "list_all wf_dict A \<Longrightarrow> list_all wf_dict E \<Longrightarrow> list_all nan_free A \<Longrightarrow> meta_eq A E
     \<Longrightarrow> dicts_loop (zip A E)"
  unfolding meta_eq_def
proof (induction A arbitrary: E)
  case Nil
  then show ?case by simp
next
  case (Cons a A)
  then obtain e E' where E: "E = e # E'" by (cases E) auto
  with Cons have "sorted_items a = sorted_items e"
    using dict_eq_sorted_items[of a e] by simp
  moreover have "items_loop (zip (sorted_items a) (sorted_items a))"
    using Cons.prems(3) by (simp add: items_loop_refl nan_free_sorted_items)
  ultimately show ?case
    using Cons E by simp
qed

lemma meta_eq_same_sizes:
  "meta_eq A E \<Longrightarrow> list_all2 (\<lambda>a e. length a = length e) A E"
  unfolding meta_eq_def by (erule list_all2_mono) (simp add: dict_eq_def)

lemma items_loop_cut:
  "items_loop (zip (sorted_items (take (min (length a) (length e)) (sorted_items a)))
                   (sorted_items (take (min (length a) (length e)) (sorted_items e))))
     = items_loop (zip (sorted_items a) (sorted_items e))"
proof -
  let ?m = "min (length a) (length e)"
  have "zip (take ?m (sorted_items a)) (take ?m (sorted_items e))
          = take ?m (zip (sorted_items a) (sorted_items e))"
    by (simp add: take_zip)
  also have "\<dots> = zip (sorted_items a) (sorted_items e)"
    by (simp add: length_sorted_items)
  finally show ?thesis
    by (simp add: sorted_items_take)
qed

lemma dicts_loop_cut:
  "dicts_loop (zip (cut_actual A E) (cut_expected A E)) = dicts_loop (zip A E)"
proof (induction A arbitrary: E)
  case Nil
  then show ?case by (simp add: cut_actual_def cut_expected_def)
next
  case (Cons a A)
  show ?case
  proof (cases E)
    case Nil
    then show ?thesis by (simp add: cut_actual_def cut_expected_def)
  next
    case (Cons e E')
    have "dicts_loop (zip (cut_actual A E') (cut_expected A E')) = dicts_loop (zip A E')"
      by (rule Cons.IH)
    then show ?thesis
      using Cons items_loop_cut[of a e] by (simp add: cut_actual_def cut_expected_def)
  qed
qed

lemma cut_wf_nan_free:
  "list_all wf_dict A \<Longrightarrow> list_all wf_dict (cut_actual A E)"
  "list_all wf_dict E \<Longrightarrow> list_all wf_dict (cut_expected A E)"
  "list_all nan_free A \<Longrightarrow> list_all nan_free (cut_actual A E)"
  by (auto simp: cut_actual_def cut_expected_def list_all_iff wf_dict_take wf_dict_sorted_items
        nan_free_take nan_free_sorted_items dest: set_zip_leftD set_zip_rightD)

lemma are_equal_metadata_loop:
  assumes "list_all wf_dict A" "list_all wf_dict E" "list_all nan_free A"
  shows "are_equal_metadata A E = dicts_loop (zip A E)"
  using meta_eq_dicts_loop[OF assms] by (auto simp: are_equal_metadata_def)


lemma are_equal_metadata_cut:
  assumes "list_all wf_dict A" "list_all wf_dict E" "list_all nan_free A"
  shows "are_equal_metadata A E = are_equal_metadata (cut_actual A E) (cut_expected A E)"
proof -
  have "are_equal_metadata (cut_actual A E) (cut_expected A E)
          = dicts_loop (zip (cut_actual A E) (cut_expected A E))"
    using assms by (intro are_equal_metadata_loop cut_wf_nan_free)
  then show ?thesis
    using are_equal_metadata_loop[OF assms] by (simp add: dicts_loop_cut)
qed

lemma are_equal_metadata_take:
  assumes "list_all wf_dict A" "list_all wf_dict E" "list_all nan_free A"
  shows "are_equal_metadata A E =
           are_equal_metadata (take (min (length A) (length E)) A)
                              (take (min (length A) (length E)) E)"
proof -
  let ?n = "min (length A) (length E)"
  have z: "zip (take ?n A) (take ?n E) = zip A E"
    by (simp add: take_zip [symmetric])
  have "list_all wf_dict (take ?n A)" "list_all wf_dict (take ?n E)"
    "list_all nan_free (take ?n A)"
    using assms by (auto simp: list_all_iff dest: in_set_takeD)
  then have "are_equal_metadata (take ?n A) (take ?n E) = dicts_loop (zip A E)"
    using are_equal_metadata_loop[of "take ?n A" "take ?n E"] z by simp
  then show ?thesis
    using are_equal_metadata_loop[OF assms] by simp
qed

text \<open>
  Claim C9, as amended. \<^verbatim>\<open>are_equal_metadata\<close> looks at zipped pairs only. With
  an empty actual list (or an empty expected list) it returns \<open>True\<close> whatever the
  other list holds. When the two lists, or the two records of some compared pair, have
  different lengths, the result is that of the loop over the operands cut to the shorter
  length: the entries beyond the length of the shorter operand are never inspected.
  When the records are dicts (distinct keys) and no value of an actual record is a NaN, the
  result is also the result of the whole comparison on the operands cut to the shorter
  length, and on the two lists cut to the shorter list, so the excess entries cannot make
  it fail.
\<close>

theorem are_equal_metadata_ignores_excess:
  "are_equal_metadata [] E
   \<and> are_equal_metadata A []
   \<and> (\<not> list_all2 (\<lambda>a e. length a = length e) A E \<longrightarrow>
        are_equal_metadata A E = dicts_loop (zip (cut_actual A E) (cut_expected A E)))
   \<and> (list_all wf_dict A \<and> list_all wf_dict E \<and> list_all nan_free A \<longrightarrow>
        are_equal_metadata A E = are_equal_metadata (cut_actual A E) (cut_expected A E)
        \<and> are_equal_metadata A E =
            are_equal_metadata (take (min (length A) (length E)) A)
                               (take (min (length A) (length E)) E))"
proof (intro conjI impI)
  show "are_equal_metadata [] E"
    by (simp add: are_equal_metadata_def)
  show "are_equal_metadata A []"
    by (simp add: are_equal_metadata_def)
  show "are_equal_metadata A E = dicts_loop (zip (cut_actual A E) (cut_expected A E))"
    if "\<not> list_all2 (\<lambda>a e. length a = length e) A E"
  proof -
    from that have "\<not> meta_eq A E"
      using meta_eq_same_sizes by blast
    then show ?thesis
      by (simp add: are_equal_metadata_def dicts_loop_cut)
  qed
  show "are_equal_metadata A E = are_equal_metadata (cut_actual A E) (cut_expected A E)"
    if "list_all wf_dict A \<and> list_all wf_dict E \<and> list_all nan_free A"
    using that are_equal_metadata_cut by blast
  show "are_equal_metadata A E =
          are_equal_metadata (take (min (length A) (length E)) A)
                             (take (min (length A) (length E)) E)"
    if "list_all wf_dict A \<and> list_all wf_dict E \<and> list_all nan_free A"
    using that are_equal_metadata_take by blast
qed

theorem are_equal_metadata_ignores_excess_witness:
  "\<not> list_all2 (\<lambda>a e. length a = length e)
        [[(''p'', Str ''/x/assets/f'')]]
        [[(''zz'', Other (1::nat)), (''p'', Str ''assets/f'')], [(''name'', Other 2)]]
   \<and> list_all wf_dict [[(''p'', Str ''/x/assets/f'') :: string \<times> nat pyval]]
   \<and> list_all wf_dict
        [[(''zz'', Other (1::nat)), (''p'', Str ''assets/f'')], [(''name'', Other 2)]]
   \<and> list_all nan_free [[(''p'', Str ''/x/assets/f'') :: string \<times> nat pyval]]
   \<and> cut_expected [[(''p'', Str ''/x/assets/f'')]]
        [[(''zz'', Other (1::nat)), (''p'', Str ''assets/f'')], [(''name'', Other 2)]]
       = [[(''p'', Str ''assets/f'')]]
   \<and> are_equal_metadata [[(''p'', Str ''/x/assets/f'')]]
        [[(''zz'', Other (1::nat)), (''p'', Str ''assets/f'')], [(''name'', Other 2)]]
   \<and> are_equal_metadata [[(''p'', Str ''/x/assets/f'')]]
        [[(''p'', Str ''assets/f'' :: nat pyval)]]"
proof -
  let ?A = "[[(''p'', Str ''/x/assets/f'')]] :: nat pydict list"
  let ?E = "[[(''zz'', Other (1::nat)), (''p'', Str ''assets/f'')], [(''name'', Other 2)]]"
  note t = are_equal_metadata_ignores_excess [of ?E ?A]
  have h1: "\<not> list_all2 (\<lambda>a e. length a = length e) ?A ?E"
    by simp
  have h2: "list_all wf_dict ?A \<and> list_all wf_dict ?E \<and> list_all nan_free ?A"
    by (simp add: wf_dict_def nan_free_def)
  have ca: "cut_actual ?A ?E = ?A"
    by (simp add: cut_actual_def sorted_items_def)
  have ce: "cut_expected ?A ?E = [[(''p'', Str ''assets/f'')]]"
    by (simp add: cut_expected_def sorted_items_def)
  have loop: "dicts_loop (zip (cut_actual ?A ?E) (cut_expected ?A ?E))"
    unfolding ca ce
    by (simp add: sorted_items_def normpath_def tail_slice_def initial_slashes_def
          os_path_sep_def)
  from t h1 loop have full: "are_equal_metadata ?A ?E"
    by blast
  from t h2 full ca ce have "are_equal_metadata ?A [[(''p'', Str ''assets/f'')]]"
    by metis
  with h1 h2 ce full show ?thesis
    by blast
qed

text \<open>
  Claim C9 as stated lets no entry beyond the length of the shorter operand make the
  comparison fail. With a NaN value one does: a list compares equal to itself at line 23,
  where identical records are accepted before any \<^verbatim>\<open>==\<close> on their values, but with
  one more record, or one more item in the record, on one side the loop runs and
  \<^verbatim>\<open>nan == nan\<close> is \<open>False\<close>.
\<close>

theorem are_equal_metadata_nan_excess_counterexample:
  "are_equal_metadata [[(''i'', NaN 0)]] [[(''i'', NaN 0 :: nat pyval)]]
   \<and> \<not> are_equal_metadata [[(''i'', NaN 0)]] [[(''i'', NaN 0 :: nat pyval)], []]
   \<and> \<not> are_equal_metadata [[(''i'', NaN 0)]]
          [[(''i'', NaN 0 :: nat pyval), (''zz'', Other 1)]]"
  by (simp add: are_equal_metadata_def meta_eq_def dict_eq_def sorted_items_def)

text \<open>
  Claim C8, as amended. \<^verbatim>\<open>are_equal_metadata\<close> returns \<open>True\<close> exactly when
  the two lists are equal or every pair of items it visits has equal keys and values that
  are equal (\<^verbatim>\<open>==\<close>) or are both strings such that the slice
  \<^verbatim>\<open>act_v[-len(exp_v):]\<close> of the actual value, normalized and split on the path
  separator, equals the normalized expected value split on the path separator. Any other
  unequal pair of values, and any pair of different keys, makes it return \<open>False\<close>.
\<close>

theorem are_equal_metadata_path_suffix:
  "are_equal_metadata actual_meta expected_meta \<longleftrightarrow>
     meta_eq actual_meta expected_meta \<or>
     (\<forall>(actual_dict, expected_dict) \<in> set (zip actual_meta expected_meta).
        \<forall>((act_k, act_v), (exp_k, exp_v))
            \<in> set (zip (sorted_items actual_dict) (sorted_items expected_dict)).
          act_k = exp_k \<and>
          (py_eq act_v exp_v \<or>
           (\<exists>a e. act_v = Str a \<and> exp_v = Str e \<and>
              split_sep os_path_sep (normpath (tail_slice a (length e)))
                = split_sep os_path_sep (normpath e))))"
  unfolding are_equal_metadata_def dicts_loop_iff items_loop_iff path_suffix_match_iff
    case_prod_beta
  by auto

theorem are_equal_metadata_path_suffix_witness:
  "are_equal_metadata
     [[(''name'', Str ''replace_fun_fonts''), (''fonts_path'', Str ''/home/user/augly/assets/fonts.json'')]]
     [[(''name'', Str ''replace_fun_fonts''), (''fonts_path'', Str ''assets/fonts.json'' :: nat pyval)]]
   \<and> \<not> are_equal_metadata
     [[(''name'', Str ''replace_fun_fonts''), (''fonts_path'', Str ''/home/user/augly/assets/fonts.json'')]]
     [[(''name'', Str ''replace_fun_fonts''), (''fonts_path'', Str ''assets/other.json'' :: nat pyval)]]"
proof -
  have 1: "are_equal_metadata
     [[(''name'', Str ''replace_fun_fonts''), (''fonts_path'', Str ''/home/user/augly/assets/fonts.json'')]]
     [[(''name'', Str ''replace_fun_fonts''), (''fonts_path'', Str ''assets/fonts.json'' :: nat pyval)]]"
    by (subst are_equal_metadata_path_suffix)
       (simp add: sorted_items_def normpath_def tail_slice_def initial_slashes_def os_path_sep_def)
  have 2: "\<not> are_equal_metadata
     [[(''name'', Str ''replace_fun_fonts''), (''fonts_path'', Str ''/home/user/augly/assets/fonts.json'')]]
     [[(''name'', Str ''replace_fun_fonts''), (''fonts_path'', Str ''assets/other.json'' :: nat pyval)]]"
    by (subst are_equal_metadata_path_suffix)
       (simp add: meta_eq_def dict_eq_def sorted_items_def normpath_def tail_slice_def
          initial_slashes_def os_path_sep_def)
  from 1 2 show ?thesis by blast
qed

text \<open>
  Claim C8 as stated compares the trailing characters of the actual value, split on the
  separator, with the components of the normalized expected path. The code normalizes the
  trailing characters as well: here the two values differ, the split of the unnormalized
  trailing characters is not the list of expected components, and the comparison still
  returns \<open>True\<close>.
\<close>

theorem are_equal_metadata_unnormalized_counterexample:
  "Str ''/tmp/assets//x.txt'' \<noteq> (Str ''assets/x.txt/'' :: nat pyval)
   \<and> \<not> py_eq (Str ''/tmp/assets//x.txt'') (Str ''assets/x.txt/'' :: nat pyval)
   \<and> split_sep os_path_sep (tail_slice ''/tmp/assets//x.txt'' (length ''assets/x.txt/''))
       \<noteq> split_sep os_path_sep (normpath ''assets/x.txt/'')
   \<and> are_equal_metadata [[(''path'', Str ''/tmp/assets//x.txt'')]]
                        [[(''path'', Str ''assets/x.txt/'' :: nat pyval)]]"
  by (simp add: are_equal_metadata_def meta_eq_def dict_eq_def sorted_items_def normpath_def
        tail_slice_def initial_slashes_def os_path_sep_def)

section \<open>Properties of the insertion of punctuation characters\<close>

lemma insert_punctuation_chars_snoc:
  "s \<noteq> [] \<Longrightarrow>
     insert_punctuation_chars sep s = sep_after_every_char sep (butlast s) @ [last s]"
  by (induction sep s rule: insert_punctuation_chars.induct)
     (simp_all add: sep_after_every_char_def)

text \<open>
  Claim C4, as amended. For a non-empty string, \<^verbatim>\<open>InsertPunctuationChars\<close> with
  granularity \<^verbatim>\<open>"all"\<close> puts the separator after every character but the last: the
  output ends with the last character of the input, it has one separator per pair of
  adjacent characters, and the output the claim describes is this one followed by one more
  separator.
\<close>

theorem insert_punctuation_chars_between:
  "s \<noteq> [] \<Longrightarrow>
     insert_punctuation_chars sep s = sep_after_every_char sep (butlast s) @ [last s]
     \<and> last (insert_punctuation_chars sep s) = last s
     \<and> length (insert_punctuation_chars sep s)
         = length s + (length s - 1) * length sep
     \<and> sep_after_every_char sep s = insert_punctuation_chars sep s @ sep"
proof -
  assume ne: "s \<noteq> []"
  have 1: "insert_punctuation_chars sep s
             = sep_after_every_char sep (butlast s) @ [last s]"
    using ne by (rule insert_punctuation_chars_snoc)
  have len: "length (sep_after_every_char sep xs) = length xs * Suc (length sep)" for xs
    by (induction xs) (simp_all add: sep_after_every_char_def)
  have 3: "length (insert_punctuation_chars sep s)
             = length s + (length s - 1) * length sep"
    using ne by (simp add: 1 len)
  have "sep_after_every_char sep (butlast s @ [last s])
          = sep_after_every_char sep (butlast s) @ last s # sep"
    by (simp add: sep_after_every_char_def)
  then have 4: "sep_after_every_char sep s = insert_punctuation_chars sep s @ sep"
    using ne by (simp add: 1)
  from 1 3 4 show ?thesis by simp
qed

theorem insert_punctuation_chars_between_witness:
  "''hi'' \<noteq> [] \<and> insert_punctuation_chars ''?'' ''hi'' = ''h?i''
   \<and> last (insert_punctuation_chars ''?'' ''hi'') = CHR ''i''
   \<and> length (insert_punctuation_chars ''?'' ''hi'') = 3"
  using insert_punctuation_chars_between [of "''hi''" "''?''"]
  by (simp add: sep_after_every_char_def)

text \<open>
  Claim C4 as stated has a separator after the final character too. The value asserted by
  \<^verbatim>\<open>test_InsertPunctuationChars\<close> is the one with the separator between the
  characters only: it ends with the full stop of the input, and it is not the string with a
  separator after every character. On \<^verbatim>\<open>"hi"\<close> the result is \<^verbatim>\<open>"h?i"\<close>,
  not \<^verbatim>\<open>"h?i?"\<close>.
\<close>

theorem insert_punctuation_chars_trailing_counterexample:
  "map (insert_punctuation_chars ''?'') texts = expected_insert_punctuation_chars
   \<and> map (sep_after_every_char ''?'') texts \<noteq> expected_insert_punctuation_chars
   \<and> last (hd expected_insert_punctuation_chars) = CHR ''.''
   \<and> insert_punctuation_chars ''?'' ''hi'' = ''h?i''
   \<and> sep_after_every_char ''?'' ''hi'' = ''h?i?''"
  by (simp add: texts_def expected_insert_punctuation_chars_def sep_after_every_char_def)

end
